theory Spec2Isabelle
  imports Main "HOL-Library.Sublist"
begin

section \<open>Data model of \<^verbatim>\<open>src/index.ts\<close>\<close>

text \<open>
  The source file holds two revisions of the class \<^verbatim>\<open>V8CoverageCollector\<close>: an
  undocumented one (lines 16-100) and a documented one (lines 179-288). Their private
  methods \<^verbatim>\<open>testKey\<close>, \<^verbatim>\<open>coveredFiles\<close>, \<^verbatim>\<open>enable\<close>, \<^verbatim>\<open>disable\<close>,
  \<^verbatim>\<open>startPreciseCoverage\<close>, \<^verbatim>\<open>stopPreciseCoverage\<close>, \<^verbatim>\<open>takePreciseCoverage\<close> and the
  public \<^verbatim>\<open>connect\<close>, \<^verbatim>\<open>disconnect\<close>, \<^verbatim>\<open>resetCoverage\<close> are the same text in both, so
  each is embedded once. \<^verbatim>\<open>collectCoverage\<close> differs and is embedded twice.
\<close>

typedecl unknown

text \<open>\<^verbatim>\<open>interface V8ScriptCoverage { scriptId: string; url: string; functions: unknown[] }\<close>
  (the field \<^verbatim>\<open>functions\<close> is primed: the name is reserved).\<close>

record V8ScriptCoverage =
  scriptId :: string
  url :: string
  functions' :: "unknown list"

text \<open>
  Everything the code can throw or reject with: the errors of Node's
  \<^verbatim>\<open>fileURLToPath\<close> and whatever the inspector session reports.
\<close>

datatype error =
    ERR_INVALID_URL
  | ERR_INVALID_URL_SCHEME
  | ERR_INVALID_FILE_URL_HOST
  | ERR_INVALID_FILE_URL_PATH
  | URIError
  | InspectorError string

subsection \<open>The platform library\<close>

text \<open>
  The code calls four functions of the Node standard library, which is not part of the
  repository: the \<^verbatim>\<open>URL\<close> constructor (with \<^verbatim>\<open>URL.canParse\<close>), \<^verbatim>\<open>fileURLToPath\<close> of
  \<^verbatim>\<open>node:url\<close> and \<^verbatim>\<open>relative\<close> of \<^verbatim>\<open>node:path\<close>. They are a parameter of the
  embedding: every general theorem below holds for whatever these functions compute.
  The fields of a parsed URL that the code reads are \<^verbatim>\<open>protocol\<close> and \<^verbatim>\<open>pathname\<close>;
  \<^verbatim>\<open>hostname\<close> is what \<^verbatim>\<open>fileURLToPath\<close> looks at.
\<close>

record URL =
  protocol :: string
  hostname :: string
  pathname :: string

record platform =
  new_URL :: "string \<Rightarrow> URL option"
  fileURLToPath :: "string \<Rightarrow> error + string"
  relative :: "string \<Rightarrow> string \<Rightarrow> string"

text \<open>\<^verbatim>\<open>URL.canParse(s)\<close>: whether \<^verbatim>\<open>new URL(s)\<close> would return instead of throwing.\<close>

definition URL_canParse :: "platform \<Rightarrow> string \<Rightarrow> bool" where
  "URL_canParse P s = (new_URL P s \<noteq> None)"

text \<open>\<^verbatim>\<open>String.prototype.includes\<close>: the argument occurs as a contiguous substring.\<close>

fun string_includes :: "string \<Rightarrow> string \<Rightarrow> bool" where
  "string_includes [] sub = (sub = [])"
| "string_includes (c # cs) sub = (prefix sub (c # cs) \<or> string_includes cs sub)"

text \<open>
  \<^verbatim>\<open>Array.prototype.map\<close> with a callback that may throw: elements are visited in
  order and the first exception ends the call.
\<close>

fun map_throwing :: "('a \<Rightarrow> error + 'b) \<Rightarrow> 'a list \<Rightarrow> error + 'b list" where
  "map_throwing f [] = Inr []"
| "map_throwing f (x # xs) =
     (case f x of
        Inl e \<Rightarrow> Inl e
      | Inr y \<Rightarrow> (case map_throwing f xs of Inl e \<Rightarrow> Inl e | Inr ys \<Rightarrow> Inr (y # ys)))"

section \<open>The private methods\<close>

text \<open>
  \<^verbatim>\<open>testKey\<close> (lines 57-59 and 245-247):
  \<^verbatim>\<open>return `${relative(wd, testFile)}::${testName}|run`;\<close>
\<close>

definition testKey :: "platform \<Rightarrow> string \<Rightarrow> string \<Rightarrow> string \<Rightarrow> string" where
  "testKey P wd testFile testName = relative P wd testFile @ ''::'' @ testName @ ''|run''"

text \<open>
  The callback of \<^verbatim>\<open>filter\<close> in \<^verbatim>\<open>coveredFiles\<close> (lines 64-71 and 252-259):
  \<^verbatim>\<open>const url = URL.canParse(s) && new URL(s);
  return url && url.protocol === 'file:' && !url.pathname.includes('node_modules');\<close>
\<close>

definition coveredFiles_filter :: "platform \<Rightarrow> string \<Rightarrow> bool" where
  "coveredFiles_filter P s =
     (case (if URL_canParse P s then new_URL P s else None) of
        None \<Rightarrow> False
      | Some u \<Rightarrow> protocol u = ''file:'' \<and> \<not> string_includes (pathname u) ''node_modules'')"

text \<open>
  The callback of the last \<^verbatim>\<open>map\<close> (lines 72 and 260):
  \<^verbatim>\<open>(url) => relative(wd, fileURLToPath(url))\<close>. Its argument is the url string, which
  \<^verbatim>\<open>fileURLToPath\<close> parses again and may reject.
\<close>

definition coveredFiles_entry :: "platform \<Rightarrow> string \<Rightarrow> string \<Rightarrow> error + string" where
  "coveredFiles_entry P wd s =
     (case fileURLToPath P s of Inl e \<Rightarrow> Inl e | Inr p \<Rightarrow> Inr (relative P wd p))"

text \<open>
  \<^verbatim>\<open>coveredFiles\<close> (lines 61-73 and 249-261):
  \<^verbatim>\<open>result.map((s) => s.url).filter(...).map((url) => relative(wd, fileURLToPath(url)))\<close>
\<close>

definition coveredFiles :: "platform \<Rightarrow> string \<Rightarrow> V8ScriptCoverage list \<Rightarrow> error + string list" where
  "coveredFiles P wd result =
     map_throwing (coveredFiles_entry P wd) (filter (coveredFiles_filter P) (map url result))"

section \<open>The inspector session\<close>

text \<open>
  The class owns an \<^verbatim>\<open>inspector.Session\<close> and talks to it in three ways:
  \<^verbatim>\<open>session.connect()\<close>, \<^verbatim>\<open>session.disconnect()\<close> and the promisified
  \<^verbatim>\<open>session.post(method, params)\<close>. The only parameter object the code ever passes is
  \<^verbatim>\<open>{ callCount: true, detailed: false }\<close>-shaped.
\<close>

record start_params =
  callCount :: bool
  detailed :: bool

datatype request =
    SessionConnect
  | Post string "start_params option"
  | SessionDisconnect

text \<open>
  How an awaited call ends: the promise is fulfilled with a value, it is rejected with an
  error (a synchronous throw inside an \<^verbatim>\<open>async\<close> method is a rejection too), or it
  never settles.
\<close>

datatype 'a promise = Fulfilled 'a | Rejected error | Pending

text \<open>
  The session is outside the repository. It is a parameter: a function from the requests
  issued so far and the current request to the way that request ends. The payload of a
  fulfilled request is the \<^verbatim>\<open>result\<close> array of the reply; the code reads it only after
  \<^verbatim>\<open>Profiler.takePreciseCoverage\<close>.
\<close>

type_synonym collaborator = "request list \<Rightarrow> request \<Rightarrow> V8ScriptCoverage list promise"

text \<open>
  A method of the class takes the list of requests issued so far and returns how it ends
  together with the extended list.
\<close>

type_synonym 'a async = "request list \<Rightarrow> 'a promise \<times> request list"

definition issue :: "collaborator \<Rightarrow> request \<Rightarrow> V8ScriptCoverage list async" where
  "issue c r h = (c h r, h @ [r])"

text \<open>\<^verbatim>\<open>await m; k\<close>: the continuation runs only when the awaited call is fulfilled.\<close>

definition await :: "'a async \<Rightarrow> ('a \<Rightarrow> 'b async) \<Rightarrow> 'b async" where
  "await m k h =
     (case m h of
        (Fulfilled x, h') \<Rightarrow> k x h'
      | (Rejected e, h') \<Rightarrow> (Rejected e, h')
      | (Pending, h') \<Rightarrow> (Pending, h'))"

definition resolve :: "'a \<Rightarrow> 'a async" where
  "resolve x h = (Fulfilled x, h)"

definition post :: "collaborator \<Rightarrow> string \<Rightarrow> start_params option \<Rightarrow> V8ScriptCoverage list async" where
  "post c method params = issue c (Post method params)"

text \<open>Lines 75-99 and 263-287.\<close>

definition enable :: "collaborator \<Rightarrow> unit async" where
  "enable c = await (post c ''Profiler.enable'' None) (\<lambda>_. resolve ())"

definition disable :: "collaborator \<Rightarrow> unit async" where
  "disable c = await (post c ''Profiler.disable'' None) (\<lambda>_. resolve ())"

definition startPreciseCoverage :: "collaborator \<Rightarrow> unit async" where
  "startPreciseCoverage c =
     await (post c ''Profiler.startPreciseCoverage''
              (Some \<lparr>callCount = True, detailed = False\<rparr>))
       (\<lambda>_. resolve ())"

definition stopPreciseCoverage :: "collaborator \<Rightarrow> unit async" where
  "stopPreciseCoverage c = await (post c ''Profiler.stopPreciseCoverage'' None) (\<lambda>_. resolve ())"

definition takePreciseCoverage :: "collaborator \<Rightarrow> V8ScriptCoverage list async" where
  "takePreciseCoverage c =
     await (post c ''Profiler.takePreciseCoverage'' None) (\<lambda>result. resolve result)"

section \<open>The public methods\<close>

text \<open>
  \<^verbatim>\<open>connect\<close> (lines 28-32 and 196-200):
  \<^verbatim>\<open>this.session.connect(); await this.enable(); await this.startPreciseCoverage();\<close>
\<close>

definition connect :: "collaborator \<Rightarrow> unit async" where
  "connect c =
     await (issue c SessionConnect) (\<lambda>_.
     await (enable c) (\<lambda>_.
     await (startPreciseCoverage c) (\<lambda>_.
     resolve ())))"

text \<open>
  \<^verbatim>\<open>disconnect\<close> (lines 34-38 and 207-211):
  \<^verbatim>\<open>await this.stopPreciseCoverage(); await this.disable(); this.session.disconnect();\<close>
\<close>

definition disconnect :: "collaborator \<Rightarrow> unit async" where
  "disconnect c =
     await (stopPreciseCoverage c) (\<lambda>_.
     await (disable c) (\<lambda>_.
     await (issue c SessionDisconnect) (\<lambda>_.
     resolve ())))"

text \<open>\<^verbatim>\<open>resetCoverage\<close> (lines 40-42 and 218-220): \<^verbatim>\<open>await this.takePreciseCoverage();\<close>\<close>

definition resetCoverage :: "collaborator \<Rightarrow> unit async" where
  "resetCoverage c = await (takePreciseCoverage c) (\<lambda>_. resolve ())"

text \<open>
  What \<^verbatim>\<open>collectCoverage\<close> resolves to is a plain object: its own properties, in
  insertion order, each a string or an array of strings.
\<close>

datatype js_value = JString string | JStringArray "string list"

type_synonym js_object = "(string \<times> js_value) list"

text \<open>
  The callback of \<^verbatim>\<open>then\<close>: an exception thrown by \<^verbatim>\<open>coveredFiles\<close> rejects the
  promise that \<^verbatim>\<open>collectCoverage\<close> returns.
\<close>

definition settle :: "error + 'a \<Rightarrow> 'a async" where
  "settle r h = (case r of Inl e \<Rightarrow> (Rejected e, h) | Inr x \<Rightarrow> (Fulfilled x, h))"

text \<open>
  \<^verbatim>\<open>collectCoverage\<close>, documented revision (lines 231-243):
  \<^verbatim>\<open>return this.takePreciseCoverage().then((result) => {
    const testKey = this.testKey(wd, testFile, testName);
    return { testKey: testKey, coveredFiles: this.coveredFiles(wd, result) };
  });\<close>
\<close>

definition collectCoverage ::
  "platform \<Rightarrow> collaborator \<Rightarrow> string \<Rightarrow> string \<Rightarrow> string \<Rightarrow> js_object async" where
  "collectCoverage P c wd testFile testName =
     await (takePreciseCoverage c) (\<lambda>result.
       let k = testKey P wd testFile testName in
       settle (case coveredFiles P wd result of
                 Inl e \<Rightarrow> Inl e
               | Inr fs \<Rightarrow> Inr [(''testKey'', JString k), (''coveredFiles'', JStringArray fs)]))"

text \<open>
  \<^verbatim>\<open>collectCoverage\<close>, undocumented revision (lines 44-55): the same, with
  \<^verbatim>\<open>return { [testKey]: this.coveredFiles(wd, result) };\<close>
\<close>

definition collectCoverage_undocumented ::
  "platform \<Rightarrow> collaborator \<Rightarrow> string \<Rightarrow> string \<Rightarrow> string \<Rightarrow> js_object async" where
  "collectCoverage_undocumented P c wd testFile testName =
     await (takePreciseCoverage c) (\<lambda>result.
       let k = testKey P wd testFile testName in
       settle (case coveredFiles P wd result of
                 Inl e \<Rightarrow> Inl e
               | Inr fs \<Rightarrow> Inr [(k, JStringArray fs)]))"

section \<open>A model of the platform library on POSIX\<close>

text \<open>
  For concrete inputs the platform functions are needed as computations. \<^verbatim>\<open>path.relative\<close>
  is modelled for POSIX paths, on their segments. The WHATWG URL parser is modelled on a
  fragment only, on which the parser neither rewrites nor escapes anything:
  \<^item> \<^verbatim>\<open>file://<host><path>\<close>, the host empty or lowercase letters, the path starting with
    \<^verbatim>\<open>/\<close>, made of ASCII letters, digits and \<^verbatim>\<open>/ . _ -\<close>, with no segment \<^verbatim>\<open>.\<close> or
    \<^verbatim>\<open>..\<close>;
  \<^item> \<^verbatim>\<open><scheme>:<rest>\<close> with a lowercase scheme that is not one of the special schemes
    and a rest of the same characters that does not start with \<^verbatim>\<open>/\<close> (an opaque path,
    as in \<^verbatim>\<open>node:internal/fs\<close>);
  \<^item> a string with no \<^verbatim>\<open>:\<close> at all, which has no scheme and does not parse (there is
    no base URL).
  On every other string the model answers that it does not parse, which need not be what
  Node does; the model is used at concrete inputs of the fragment only.
\<close>

text \<open>\<^verbatim>\<open>p.split('/')\<close>: the path segments of a string.\<close>

fun segments :: "string \<Rightarrow> string list" where
  "segments [] = [[]]"
| "segments (c # cs) =
     (if c = CHR ''/'' then [] # segments cs
      else (case segments cs of [] \<Rightarrow> [[c]] | w # ws \<Rightarrow> (c # w) # ws))"

definition lower_alpha :: string where
  "lower_alpha = ''abcdefghijklmnopqrstuvwxyz''"

definition scheme_chars :: string where
  "scheme_chars = ''abcdefghijklmnopqrstuvwxyz0123456789+-.''"

definition path_chars :: string where
  "path_chars = ''abcdefghijklmnopqrstuvwxyzABCDEFGHIJKLMNOPQRSTUVWXYZ0123456789/._-''"

definition special_schemes :: "string list" where
  "special_schemes = [''ftp'', ''file'', ''http'', ''https'', ''ws'', ''wss'']"

definition split_scheme :: "string \<Rightarrow> (string \<times> string) option" where
  "split_scheme s =
     (case (takeWhile (\<lambda>c. c \<noteq> CHR '':'') s, dropWhile (\<lambda>c. c \<noteq> CHR '':'') s) of
        (a # sch, colon # rest) \<Rightarrow>
          if a \<in> set lower_alpha \<and> list_all (\<lambda>c. c \<in> set scheme_chars) sch
          then Some (a # sch, rest) else None
      | _ \<Rightarrow> None)"

definition plain_path :: "string \<Rightarrow> bool" where
  "plain_path p =
     (list_all (\<lambda>c. c \<in> set path_chars) p \<and> ''.'' \<notin> set (segments p) \<and> ''..'' \<notin> set (segments p))"

definition fragment_new_URL :: "string \<Rightarrow> URL option" where
  "fragment_new_URL s =
     (case split_scheme s of
        None \<Rightarrow> None
      | Some (sch, rest) \<Rightarrow>
          if sch = ''file'' then
            (let h = takeWhile (\<lambda>c. c \<noteq> CHR ''/'') (drop 2 rest);
                 p = dropWhile (\<lambda>c. c \<noteq> CHR ''/'') (drop 2 rest)
             in if prefix ''//'' rest \<and> p \<noteq> [] \<and> list_all (\<lambda>c. c \<in> set lower_alpha) h \<and> plain_path p
                then Some \<lparr>protocol = ''file:'',
                           hostname = (if h = ''localhost'' then [] else h),
                           pathname = p\<rparr>
                else None)
          else if sch \<in> set special_schemes then None
          else if list_all (\<lambda>c. c \<in> set path_chars) rest \<and> \<not> prefix ''/'' rest
               then Some \<lparr>protocol = sch @ '':'', hostname = [], pathname = rest\<rparr>
               else None)"

text \<open>
  \<^verbatim>\<open>fileURLToPath\<close> on POSIX: the string must parse, the protocol must be \<^verbatim>\<open>file:\<close> and
  the host empty; the path is the decoded pathname, which on the fragment is the pathname.
\<close>

definition fragment_fileURLToPath :: "string \<Rightarrow> error + string" where
  "fragment_fileURLToPath s =
     (case fragment_new_URL s of
        None \<Rightarrow> Inl ERR_INVALID_URL
      | Some u \<Rightarrow>
          if protocol u \<noteq> ''file:'' then Inl ERR_INVALID_URL_SCHEME
          else if hostname u \<noteq> [] then Inl ERR_INVALID_FILE_URL_HOST
          else Inr (pathname u))"

text \<open>
  \<^verbatim>\<open>path.resolve\<close> as the list of segments of the absolute, normalised path: a relative
  path is taken from the current directory, empty segments and \<^verbatim>\<open>.\<close> are dropped and
  \<^verbatim>\<open>..\<close> removes the segment before it (none at the root).
\<close>

definition normalize_step :: "string list \<Rightarrow> string \<Rightarrow> string list" where
  "normalize_step acc seg =
     (if seg = [] \<or> seg = ''.'' then acc
      else if seg = ''..'' then butlast acc
      else acc @ [seg])"

definition posix_resolve :: "string \<Rightarrow> string \<Rightarrow> string list" where
  "posix_resolve cwd p =
     foldl normalize_step [] (segments (if prefix ''/'' p then p else cwd @ ''/'' @ p))"

fun strip_common :: "string list \<Rightarrow> string list \<Rightarrow> string list \<times> string list" where
  "strip_common (x # xs) (y # ys) = (if x = y then strip_common xs ys else (x # xs, y # ys))"
| "strip_common xs ys = (xs, ys)"

fun join_slash :: "string list \<Rightarrow> string" where
  "join_slash [] = []"
| "join_slash [x] = x"
| "join_slash (x # y # zs) = x @ ''/'' @ join_slash (y # zs)"

text \<open>
  \<^verbatim>\<open>path.relative(from, to)\<close>: both paths are resolved, their common leading segments are
  dropped, and the result is one \<^verbatim>\<open>..\<close> for each segment left of \<^verbatim>\<open>from\<close> followed by
  the segments left of \<^verbatim>\<open>to\<close>.
\<close>

definition posix_relative :: "string \<Rightarrow> string \<Rightarrow> string \<Rightarrow> string" where
  "posix_relative cwd from to =
     (case strip_common (posix_resolve cwd from) (posix_resolve cwd to) of
        (f, t) \<Rightarrow> join_slash (replicate (length f) ''..'' @ t))"

definition posix_fragment :: "string \<Rightarrow> platform" where
  "posix_fragment cwd =
     \<lparr>new_URL = fragment_new_URL,
      fileURLToPath = fragment_fileURLToPath,
      relative = posix_relative cwd\<rparr>"

text \<open>A path lies in the tree of a directory when the directory's segments lead to it.\<close>

definition inside_tree :: "string \<Rightarrow> string \<Rightarrow> string \<Rightarrow> bool" where
  "inside_tree cwd wd p = prefix (posix_resolve cwd wd) (posix_resolve cwd p)"

text \<open>A collaborator that fulfils every request, with a fixed snapshot.\<close>

definition always :: "V8ScriptCoverage list \<Rightarrow> collaborator" where
  "always snapshot h r = Fulfilled snapshot"

text \<open>A collaborator that rejects one request and fulfils the others.\<close>

definition rejecting :: "request \<Rightarrow> collaborator" where
  "rejecting bad h r = (if r = bad then Rejected (InspectorError ''rejected'') else Fulfilled [])"

definition script :: "string \<Rightarrow> V8ScriptCoverage" where
  "script u = \<lparr>scriptId = ''0'', url = u, functions' = []\<rparr>"

definition is_fulfilled :: "'a promise \<Rightarrow> bool" where
  "is_fulfilled p = (case p of Fulfilled _ \<Rightarrow> True | _ \<Rightarrow> False)"

text \<open>
  The inverse of each step of \<^verbatim>\<open>connect\<close>: closing undoes opening, disabling undoes
  enabling, stopping undoes starting.
\<close>

definition inverse_request :: "request \<Rightarrow> request" where
  "inverse_request r =
     (if r = SessionConnect then SessionDisconnect
      else if r = Post ''Profiler.enable'' None then Post ''Profiler.disable'' None
      else if r = Post ''Profiler.startPreciseCoverage'' (Some \<lparr>callCount = True, detailed = False\<rparr>)
      then Post ''Profiler.stopPreciseCoverage'' None
      else r)"

section \<open>Strings and lists\<close>

lemma string_includes_sublist: "string_includes s sub \<longleftrightarrow> sublist sub s"
  by (induction s) (auto simp: sublist_Cons_right)

lemma segments_nonempty: "segments p \<noteq> []"
  by (induction p) (auto split: list.splits)

lemma first_segment_prefix: "segments cs = w # ws \<Longrightarrow> prefix w cs"
proof (induction cs arbitrary: w ws)
  case Nil
  then show ?case by auto
next
  case (Cons d ds)
  then show ?case by (auto split: if_splits list.splits)
qed

text \<open>Every path segment of a string is a substring of it; the converse fails.\<close>

lemma segment_is_sublist: "seg \<in> set (segments p) \<Longrightarrow> sublist seg p"
proof (induction p arbitrary: seg)
  case Nil
  then show ?case by simp
next
  case (Cons c cs)
  show ?case
  proof (cases "c = CHR ''/''")
    case True
    with Cons.prems have "seg = [] \<or> seg \<in> set (segments cs)" by auto
    then show ?thesis using Cons.IH by (auto intro: sublist_Cons_right[THEN iffD2])
  next
    case False
    obtain w ws where ws: "segments cs = w # ws"
      using segments_nonempty[of cs] by (cases "segments cs") auto
    with False Cons.prems have "seg = c # w \<or> seg \<in> set ws" by auto
    then show ?thesis
    proof
      assume s: "seg = c # w"
      have "prefix w cs" using ws by (rule first_segment_prefix)
      then have "prefix seg (c # cs)" using s by simp
      then show ?thesis by (simp add: sublist_Cons_right)
    next
      assume "seg \<in> set ws"
      then have "seg \<in> set (segments cs)" using ws by simp
      then have "sublist seg cs" by (rule Cons.IH)
      then show ?thesis by (simp add: sublist_Cons_right)
    qed
  qed
qed

lemma map_throwing_Inr: "map_throwing f xs = Inr ys \<longleftrightarrow> list_all2 (\<lambda>x y. f x = Inr y) xs ys"
proof (induction xs arbitrary: ys)
  case Nil
  then show ?case by auto
next
  case (Cons x xs)
  show ?case by (cases ys) (auto simp: Cons.IH[symmetric] split: sum.splits)
qed

lemma map_throwing_append:
  "map_throwing f (xs @ ys) =
     (case map_throwing f xs of
        Inl e \<Rightarrow> Inl e
      | Inr a \<Rightarrow> (case map_throwing f ys of Inl e \<Rightarrow> Inl e | Inr b \<Rightarrow> Inr (a @ b)))"
  by (induction xs) (auto split: sum.splits)

section \<open>The reduction of a snapshot to a file list\<close>

lemma coveredFiles_filter_iff:
  "coveredFiles_filter P s \<longleftrightarrow>
     (\<exists>u. new_URL P s = Some u \<and> protocol u = ''file:'' \<and>
          \<not> string_includes (pathname u) ''node_modules'')"
  by (auto simp: coveredFiles_filter_def URL_canParse_def split: option.splits)

text \<open>The part of the filter that the spec describes: a \<^verbatim>\<open>node_modules\<close> segment excludes.\<close>

lemma node_modules_segment_excluded:
  assumes "new_URL P s = Some u" and "''node_modules'' \<in> set (segments (pathname u))"
  shows "\<not> coveredFiles_filter P s"
  using assms segment_is_sublist[of "''node_modules''" "pathname u"]
  by (simp add: coveredFiles_filter_iff string_includes_sublist)

lemma coveredFiles_append:
  "coveredFiles P wd (xs @ ys) =
     (case coveredFiles P wd xs of
        Inl e \<Rightarrow> Inl e
      | Inr a \<Rightarrow> (case coveredFiles P wd ys of Inl e \<Rightarrow> Inl e | Inr b \<Rightarrow> Inr (a @ b)))"
  by (simp add: coveredFiles_def map_throwing_append split: sum.splits)

lemma coveredFiles_single:
  "coveredFiles P wd [r] =
     (if coveredFiles_filter P (url r)
      then (case fileURLToPath P (url r) of Inl e \<Rightarrow> Inl e | Inr p \<Rightarrow> Inr [relative P wd p])
      else Inr [])"
  by (simp add: coveredFiles_def coveredFiles_entry_def split: sum.splits)

lemma coveredFiles_split:
  assumes "coveredFiles P wd (xs @ r # ys) = Inr fs"
  shows "\<exists>fx e fy. coveredFiles P wd xs = Inr fx \<and> coveredFiles P wd [r] = Inr e \<and>
           coveredFiles P wd ys = Inr fy \<and> fs = fx @ e @ fy"
proof -
  have "coveredFiles P wd (xs @ [r] @ ys) = Inr fs" using assms by simp
  then show ?thesis
    unfolding coveredFiles_append[of P wd xs] coveredFiles_append[of P wd "[r]"]
    by (auto split: sum.splits)
qed

text \<open>
  Claim C1, as the code has it. Whenever \<^verbatim>\<open>coveredFiles\<close> returns, a record of the
  snapshot contributes exactly one entry, at its place between the entries of the records
  before it and of those after it, if its url parses, the protocol of the parsed URL is
  \<^verbatim>\<open>file:\<close> and its pathname does not contain the substring \<^verbatim>\<open>node_modules\<close>; every
  other record contributes nothing.
\<close>

theorem coveredFiles_contribution:
  assumes "coveredFiles P wd (xs @ r # ys) = Inr fs"
  shows "\<exists>fx fy. coveredFiles P wd xs = Inr fx \<and> coveredFiles P wd ys = Inr fy \<and>
           (if \<exists>u. new_URL P (url r) = Some u \<and> protocol u = ''file:'' \<and>
                   \<not> string_includes (pathname u) ''node_modules''
            then \<exists>p. fileURLToPath P (url r) = Inr p \<and> fs = fx @ [relative P wd p] @ fy
            else fs = fx @ fy)"
proof -
  from coveredFiles_split[OF assms] obtain fx e fy where
    s: "coveredFiles P wd xs = Inr fx" "coveredFiles P wd [r] = Inr e"
       "coveredFiles P wd ys = Inr fy" "fs = fx @ e @ fy"
    by blast
  show ?thesis
  proof (cases "coveredFiles_filter P (url r)")
    case True
    with s(2) obtain p where "fileURLToPath P (url r) = Inr p" "e = [relative P wd p]"
      by (auto simp: coveredFiles_single split: sum.splits)
    with s True show ?thesis unfolding coveredFiles_filter_iff[symmetric] by auto
  next
    case False
    with s(2) have "e = []" by (simp add: coveredFiles_single)
    with s False show ?thesis unfolding coveredFiles_filter_iff[symmetric] by auto
  qed
qed

theorem coveredFiles_contribution_witness:
  "coveredFiles (posix_fragment ''/repo'') ''/repo''
     ([script ''node:internal/fs''] @ script ''file:///repo/src/index.ts''
        # [script ''file:///repo/node_modules/lib/index.js'']) = Inr [''src/index.ts'']
   \<and> (\<exists>fx fy p.
         coveredFiles (posix_fragment ''/repo'') ''/repo'' [script ''node:internal/fs''] = Inr fx
       \<and> coveredFiles (posix_fragment ''/repo'') ''/repo''
           [script ''file:///repo/node_modules/lib/index.js''] = Inr fy
       \<and> fileURLToPath (posix_fragment ''/repo'') (url (script ''file:///repo/src/index.ts'')) = Inr p
       \<and> [''src/index.ts''] = fx @ [relative (posix_fragment ''/repo'') ''/repo'' p] @ fy)"
proof -
  have h: "coveredFiles (posix_fragment ''/repo'') ''/repo''
     ([script ''node:internal/fs''] @ script ''file:///repo/src/index.ts''
        # [script ''file:///repo/node_modules/lib/index.js'']) = Inr [''src/index.ts'']"
    by code_simp
  have "coveredFiles_filter (posix_fragment ''/repo'') (url (script ''file:///repo/src/index.ts''))"
    by code_simp
  then have passes: "\<exists>u. new_URL (posix_fragment ''/repo'') (url (script ''file:///repo/src/index.ts'')) = Some u
      \<and> protocol u = ''file:'' \<and> \<not> string_includes (pathname u) ''node_modules''"
    by (simp only: coveredFiles_filter_iff)
  from coveredFiles_contribution[OF h] passes h show ?thesis
    by (simp only: if_True) blast
qed

text \<open>
  The claim as the spec words it fails: the pathname \<^verbatim>\<open>/repo/my_node_modules/a.js\<close> has
  no segment equal to \<^verbatim>\<open>node_modules\<close>, and the record is dropped all the same.
\<close>

theorem node_modules_substring_counterexample:
  "new_URL (posix_fragment ''/repo'') ''file:///repo/my_node_modules/a.js''
     = Some \<lparr>protocol = ''file:'', hostname = [], pathname = ''/repo/my_node_modules/a.js''\<rparr>
   \<and> ''node_modules'' \<notin> set (segments ''/repo/my_node_modules/a.js'')
   \<and> coveredFiles (posix_fragment ''/repo'') ''/repo''
        [script ''file:///repo/my_node_modules/a.js''] = Inr []"
  by code_simp

text \<open>
  A url that passes the filter can still be refused by \<^verbatim>\<open>fileURLToPath\<close>, and then
  \<^verbatim>\<open>coveredFiles\<close> throws: on POSIX a file URL with a remote host is refused.
\<close>

lemma remote_host_throws:
  "coveredFiles_filter (posix_fragment ''/repo'') ''file://remote/x.js''
   \<and> coveredFiles (posix_fragment ''/repo'') ''/repo''
        [script ''file:///repo/src/a.ts'', script ''file://remote/x.js'']
      = Inl ERR_INVALID_FILE_URL_HOST"
  by code_simp

text \<open>
  Claim C3. Whenever \<^verbatim>\<open>coveredFiles\<close> returns, its entries are, one for one and in the
  same order, the urls of the snapshot that pass the filter, each converted to a path and
  expressed relative to the working directory. Nothing is sorted and nothing is removed:
  a url that occurs in two records and passes the filter gives two entries.
\<close>

theorem coveredFiles_order:
  assumes "coveredFiles P wd snapshot = Inr fs"
  shows "list_all2 (\<lambda>s f. \<exists>p. fileURLToPath P s = Inr p \<and> f = relative P wd p)
           (filter (coveredFiles_filter P) (map url snapshot)) fs"
proof -
  have "list_all2 (\<lambda>s f. coveredFiles_entry P wd s = Inr f)
          (filter (coveredFiles_filter P) (map url snapshot)) fs"
    using assms by (simp add: coveredFiles_def map_throwing_Inr)
  then show ?thesis
    by (rule list_all2_mono) (auto simp: coveredFiles_entry_def split: sum.splits)
qed

theorem coveredFiles_order_witness:
  "coveredFiles (posix_fragment ''/repo'') ''/repo''
     (map script [''file:///repo/test/b.ts'', ''node:internal/fs'', ''file:///repo/src/a.ts'',
                  ''file:///repo/test/b.ts''])
     = Inr [''test/b.ts'', ''src/a.ts'', ''test/b.ts'']
   \<and> list_all2 (\<lambda>s f. \<exists>p. fileURLToPath (posix_fragment ''/repo'') s = Inr p
                          \<and> f = relative (posix_fragment ''/repo'') ''/repo'' p)
       (filter (coveredFiles_filter (posix_fragment ''/repo''))
          (map url (map script [''file:///repo/test/b.ts'', ''node:internal/fs'', ''file:///repo/src/a.ts'',
                  ''file:///repo/test/b.ts''])))
       [''test/b.ts'', ''src/a.ts'', ''test/b.ts'']"
proof -
  have a: "coveredFiles (posix_fragment ''/repo'') ''/repo''
     (map script [''file:///repo/test/b.ts'', ''node:internal/fs'', ''file:///repo/src/a.ts'',
                  ''file:///repo/test/b.ts''])
     = Inr [''test/b.ts'', ''src/a.ts'', ''test/b.ts'']"
    by code_simp
  from coveredFiles_order[OF a] a show ?thesis by blast
qed

lemma coveredFiles_drop:
  assumes "\<not> coveredFiles_filter P (url r)"
  shows "coveredFiles P wd (xs @ r # ys) = coveredFiles P wd (xs @ ys)"
  using assms by (simp add: coveredFiles_def)

lemma takePreciseCoverage_eq:
  "takePreciseCoverage c h =
     (c h (Post ''Profiler.takePreciseCoverage'' None), h @ [Post ''Profiler.takePreciseCoverage'' None])"
  by (simp add: takePreciseCoverage_def await_def post_def issue_def resolve_def split: promise.splits)

lemma collectCoverage_eq:
  "collectCoverage P c wd testFile testName h =
     (case c h (Post ''Profiler.takePreciseCoverage'' None) of
        Fulfilled result \<Rightarrow>
          (case coveredFiles P wd result of
             Inl e \<Rightarrow> Rejected e
           | Inr fs \<Rightarrow> Fulfilled [(''testKey'', JString (testKey P wd testFile testName)),
                                (''coveredFiles'', JStringArray fs)])
      | Rejected e \<Rightarrow> Rejected e
      | Pending \<Rightarrow> Pending,
      h @ [Post ''Profiler.takePreciseCoverage'' None])"
  by (simp add: collectCoverage_def await_def takePreciseCoverage_eq settle_def
      split: promise.splits sum.splits)

lemma collectCoverage_undocumented_eq:
  "collectCoverage_undocumented P c wd testFile testName h =
     (case c h (Post ''Profiler.takePreciseCoverage'' None) of
        Fulfilled result \<Rightarrow>
          (case coveredFiles P wd result of
             Inl e \<Rightarrow> Rejected e
           | Inr fs \<Rightarrow> Fulfilled [(testKey P wd testFile testName, JStringArray fs)])
      | Rejected e \<Rightarrow> Rejected e
      | Pending \<Rightarrow> Pending,
      h @ [Post ''Profiler.takePreciseCoverage'' None])"
  by (simp add: collectCoverage_undocumented_def await_def takePreciseCoverage_eq settle_def
      split: promise.splits sum.splits)

text \<open>
  Claim C5. A record whose url does not parse is dropped silently: the snapshot gives what
  it gives without that record, and \<^verbatim>\<open>collectCoverage\<close> settles as the remaining records
  decide, so the record itself never makes it reject.
\<close>

theorem unparseable_url_dropped:
  assumes "new_URL P (url r) = None"
  shows "coveredFiles P wd (xs @ r # ys) = coveredFiles P wd (xs @ ys)
       \<and> (c h (Post ''Profiler.takePreciseCoverage'' None) = Fulfilled (xs @ r # ys) \<longrightarrow>
            fst (collectCoverage P c wd testFile testName h) =
              (case coveredFiles P wd (xs @ ys) of
                 Inl e \<Rightarrow> Rejected e
               | Inr fs \<Rightarrow> Fulfilled [(''testKey'', JString (testKey P wd testFile testName)),
                                    (''coveredFiles'', JStringArray fs)]))"
proof -
  have "\<not> coveredFiles_filter P (url r)" using assms by (simp add: coveredFiles_filter_iff)
  then have "coveredFiles P wd (xs @ r # ys) = coveredFiles P wd (xs @ ys)"
    by (rule coveredFiles_drop)
  then show ?thesis by (simp add: collectCoverage_eq)
qed

theorem unparseable_url_dropped_witness:
  "new_URL (posix_fragment ''/repo'') (url (script ''evalmachine.<anonymous>'')) = None
   \<and> coveredFiles (posix_fragment ''/repo'') ''/repo''
        ([script ''file:///repo/src/a.ts''] @ script ''evalmachine.<anonymous>'' # [script ''file:///repo/src/b.ts''])
      = coveredFiles (posix_fragment ''/repo'') ''/repo''
        ([script ''file:///repo/src/a.ts''] @ [script ''file:///repo/src/b.ts''])
   \<and> fst (collectCoverage (posix_fragment ''/repo'')
        (always ([script ''file:///repo/src/a.ts''] @ script ''evalmachine.<anonymous>'' # [script ''file:///repo/src/b.ts'']))
        ''/repo'' ''foo.ts'' ''foo'' [])
      = Fulfilled [(''testKey'', JString ''foo.ts::foo|run''), (''coveredFiles'', JStringArray [''src/a.ts'', ''src/b.ts''])]"
proof -
  have a: "new_URL (posix_fragment ''/repo'') (url (script ''evalmachine.<anonymous>'')) = None"
    by code_simp
  have b: "always ([script ''file:///repo/src/a.ts''] @ script ''evalmachine.<anonymous>'' # [script ''file:///repo/src/b.ts''])
             [] (Post ''Profiler.takePreciseCoverage'' None)
           = Fulfilled ([script ''file:///repo/src/a.ts''] @ script ''evalmachine.<anonymous>'' # [script ''file:///repo/src/b.ts''])"
    by (simp add: always_def)
  have c: "coveredFiles (posix_fragment ''/repo'') ''/repo''
        [script ''file:///repo/src/a.ts'', script ''file:///repo/src/b.ts''] = Inr [''src/a.ts'', ''src/b.ts'']"
    by code_simp
  have d: "testKey (posix_fragment ''/repo'') ''/repo'' ''foo.ts'' ''foo'' = ''foo.ts::foo|run''"
    by code_simp
  from unparseable_url_dropped[OF a, of "''/repo''" "[script ''file:///repo/src/a.ts'']" "[script ''file:///repo/src/b.ts'']"
         "always ([script ''file:///repo/src/a.ts''] @ script ''evalmachine.<anonymous>'' # [script ''file:///repo/src/b.ts''])"
         "[]" "''foo.ts''" "''foo''"] a b
  show ?thesis by (simp add: c d)
qed









text \<open>
  The directory just above the working directory, taken as a script path, gives the entry
  \<^verbatim>\<open>..\<close>.
\<close>

lemma parent_directory_entry:
  "coveredFiles_filter (posix_fragment ''/repo/pkg'') ''file:///repo''
   \<and> fileURLToPath (posix_fragment ''/repo/pkg'') ''file:///repo'' = Inr ''/repo''
   \<and> \<not> inside_tree ''/repo/pkg'' ''/repo/pkg'' ''/repo''
   \<and> posix_resolve ''/repo/pkg'' ''/repo'' = butlast (posix_resolve ''/repo/pkg'' ''/repo/pkg'')
   \<and> coveredFiles (posix_fragment ''/repo/pkg'') ''/repo/pkg'' [script ''file:///repo''] = Inr [''..'']"
  by code_simp

section \<open>What \<^verbatim>\<open>collectCoverage\<close> resolves to\<close>

text \<open>
  Claim C2. The test key is the path of the test file relative to the working directory,
  then \<^verbatim>\<open>::\<close>, then the test name unchanged, then \<^verbatim>\<open>|run\<close>. It is the value of the
  property \<^verbatim>\<open>testKey\<close> of what the documented \<^verbatim>\<open>collectCoverage\<close> resolves to, and the
  name of the only property of what the undocumented one resolves to.
\<close>

theorem collectCoverage_testKey:
  "testKey P wd testFile testName = relative P wd testFile @ ''::'' @ testName @ ''|run''
   \<and> (fst (collectCoverage P c wd testFile testName h) = Fulfilled obj \<longrightarrow>
        map_of obj ''testKey'' = Some (JString (relative P wd testFile @ ''::'' @ testName @ ''|run'')))
   \<and> (fst (collectCoverage_undocumented P c wd testFile testName h) = Fulfilled obj' \<longrightarrow>
        map fst obj' = [relative P wd testFile @ ''::'' @ testName @ ''|run''])"
  by (auto simp: collectCoverage_eq collectCoverage_undocumented_eq testKey_def
      split: promise.splits sum.splits)

theorem collectCoverage_testKey_witness:
  "fst (collectCoverage (posix_fragment ''/repo'') (always []) ''/repo'' ''/repo/test/a.test.ts'' ''adds'' [])
     = Fulfilled [(''testKey'', JString ''test/a.test.ts::adds|run''), (''coveredFiles'', JStringArray [])]
   \<and> fst (collectCoverage_undocumented (posix_fragment ''/repo'') (always []) ''/repo'' ''/repo/test/a.test.ts'' ''adds'' [])
     = Fulfilled [(''test/a.test.ts::adds|run'', JStringArray [])]
   \<and> map_of [(''testKey'', JString ''test/a.test.ts::adds|run''), (''coveredFiles'', JStringArray [])] ''testKey''
     = Some (JString (relative (posix_fragment ''/repo'') ''/repo'' ''/repo/test/a.test.ts'' @ ''::'' @ ''adds'' @ ''|run''))
   \<and> map fst [(''test/a.test.ts::adds|run'', JStringArray [])]
     = [relative (posix_fragment ''/repo'') ''/repo'' ''/repo/test/a.test.ts'' @ ''::'' @ ''adds'' @ ''|run'']"
proof -
  have a: "fst (collectCoverage (posix_fragment ''/repo'') (always []) ''/repo'' ''/repo/test/a.test.ts'' ''adds'' [])
     = Fulfilled [(''testKey'', JString ''test/a.test.ts::adds|run''), (''coveredFiles'', JStringArray [])]"
    by code_simp
  have b: "fst (collectCoverage_undocumented (posix_fragment ''/repo'') (always []) ''/repo'' ''/repo/test/a.test.ts'' ''adds'' [])
     = Fulfilled [(''test/a.test.ts::adds|run'', JStringArray [])]"
    by code_simp
  from collectCoverage_testKey[of "posix_fragment ''/repo''" "''/repo''" "''/repo/test/a.test.ts''" "''adds''"
        "always []" "[]" _ "[(''test/a.test.ts::adds|run'', JStringArray [])]"] a b
  show ?thesis by blast
qed

text \<open>
  The documented \<^verbatim>\<open>collectCoverage\<close> resolves to an object with exactly the two
  properties \<^verbatim>\<open>testKey\<close>, a string, and \<^verbatim>\<open>coveredFiles\<close>, an array of strings.
\<close>

lemma collectCoverage_documented_shape:
  assumes "fst (collectCoverage P c wd testFile testName h) = Fulfilled obj"
  shows "\<exists>k fs. obj = [(''testKey'', JString k), (''coveredFiles'', JStringArray fs)]"
  using assms by (auto simp: collectCoverage_eq split: promise.splits sum.splits)

text \<open>
  The two revisions issue the same request and settle alike: both rejected with the same
  error, both pending, or both fulfilled with the same test key and the same covered
  files. They differ in the object that carries them.
\<close>

lemma collectCoverage_revisions_content:
  "snd (collectCoverage_undocumented P c wd testFile testName h) =
     snd (collectCoverage P c wd testFile testName h)
   \<and> ((\<exists>k fs. fst (collectCoverage P c wd testFile testName h) =
                 Fulfilled [(''testKey'', JString k), (''coveredFiles'', JStringArray fs)]
             \<and> fst (collectCoverage_undocumented P c wd testFile testName h) =
                 Fulfilled [(k, JStringArray fs)])
      \<or> (\<exists>e. fst (collectCoverage P c wd testFile testName h) = Rejected e
             \<and> fst (collectCoverage_undocumented P c wd testFile testName h) = Rejected e)
      \<or> (fst (collectCoverage P c wd testFile testName h) = Pending
             \<and> fst (collectCoverage_undocumented P c wd testFile testName h) = Pending))"
  by (auto simp: collectCoverage_eq collectCoverage_undocumented_eq
      split: promise.splits sum.splits)

text \<open>
  Claim C4. \<^verbatim>\<open>collectCoverage\<close> is to resolve to an object with exactly the two
  properties \<^verbatim>\<open>testKey\<close> and \<^verbatim>\<open>coveredFiles\<close>. The documented revision does. The
  undocumented revision (lines 44-55) does not: on the call of the repository's test,
  \<^verbatim>\<open>collectCoverage(wd, 'foo.ts', 'foo')\<close> with the two files the test expects in the
  snapshot, it resolves to an object whose only property is named by the test key, where
  the test asserts \<^verbatim>\<open>{ testKey: 'foo.ts::foo|run', coveredFiles: [...] }\<close>, the object
  that the documented revision resolves to.
\<close>

theorem collectCoverage_undocumented_shape:
  "fst (collectCoverage_undocumented (posix_fragment ''/repo'')
          (always [script ''file:///repo/test/integration.test.ts'', script ''file:///repo/src/index.ts''])
          ''/repo'' ''foo.ts'' ''foo'' [])
     = Fulfilled [(''foo.ts::foo|run'', JStringArray [''test/integration.test.ts'', ''src/index.ts''])]
   \<and> map fst [(''foo.ts::foo|run'', JStringArray [''test/integration.test.ts'', ''src/index.ts''])]
       \<noteq> [''testKey'', ''coveredFiles'']
   \<and> fst (collectCoverage (posix_fragment ''/repo'')
          (always [script ''file:///repo/test/integration.test.ts'', script ''file:///repo/src/index.ts''])
          ''/repo'' ''foo.ts'' ''foo'' [])
     = Fulfilled [(''testKey'', JString ''foo.ts::foo|run''),
                  (''coveredFiles'', JStringArray [''test/integration.test.ts'', ''src/index.ts''])]"
  by code_simp

text \<open>
  Claim C10. The two revisions of \<^verbatim>\<open>collectCoverage\<close> are to return equal results.
  They do not, already on an empty snapshot: the undocumented revision resolves to
  \<^verbatim>\<open>{ 'foo.ts::foo|run': [] }\<close> and the documented one to
  \<^verbatim>\<open>{ testKey: 'foo.ts::foo|run', coveredFiles: [] }\<close>.
\<close>

theorem collectCoverage_revisions_differ:
  "fst (collectCoverage_undocumented (posix_fragment ''/repo'') (always []) ''/repo'' ''foo.ts'' ''foo'' [])
     = Fulfilled [(''foo.ts::foo|run'', JStringArray [])]
   \<and> fst (collectCoverage (posix_fragment ''/repo'') (always []) ''/repo'' ''foo.ts'' ''foo'' [])
     = Fulfilled [(''testKey'', JString ''foo.ts::foo|run''), (''coveredFiles'', JStringArray [])]
   \<and> fst (collectCoverage_undocumented (posix_fragment ''/repo'') (always []) ''/repo'' ''foo.ts'' ''foo'' [])
     \<noteq> fst (collectCoverage (posix_fragment ''/repo'') (always []) ''/repo'' ''foo.ts'' ''foo'' [])"
  by code_simp

section \<open>The order of the requests\<close>

lemma issue_eq: "issue c r h = (c h r, h @ [r])"
  by (simp add: issue_def)

lemma post_unit:
  "await (post c m ps) (\<lambda>_. resolve ()) h =
     (case c h (Post m ps) of Fulfilled _ \<Rightarrow> Fulfilled () | Rejected e \<Rightarrow> Rejected e | Pending \<Rightarrow> Pending,
      h @ [Post m ps])"
  by (simp add: await_def post_def issue_def resolve_def split: promise.splits)

lemma enable_eq:
  "enable c h =
     (case c h (Post ''Profiler.enable'' None) of
        Fulfilled _ \<Rightarrow> Fulfilled () | Rejected e \<Rightarrow> Rejected e | Pending \<Rightarrow> Pending,
      h @ [Post ''Profiler.enable'' None])"
  by (simp add: enable_def post_unit)

lemma disable_eq:
  "disable c h =
     (case c h (Post ''Profiler.disable'' None) of
        Fulfilled _ \<Rightarrow> Fulfilled () | Rejected e \<Rightarrow> Rejected e | Pending \<Rightarrow> Pending,
      h @ [Post ''Profiler.disable'' None])"
  by (simp add: disable_def post_unit)

lemma startPreciseCoverage_eq:
  "startPreciseCoverage c h =
     (case c h (Post ''Profiler.startPreciseCoverage'' (Some \<lparr>callCount = True, detailed = False\<rparr>)) of
        Fulfilled _ \<Rightarrow> Fulfilled () | Rejected e \<Rightarrow> Rejected e | Pending \<Rightarrow> Pending,
      h @ [Post ''Profiler.startPreciseCoverage'' (Some \<lparr>callCount = True, detailed = False\<rparr>)])"
  by (simp add: startPreciseCoverage_def post_unit)

lemma stopPreciseCoverage_eq:
  "stopPreciseCoverage c h =
     (case c h (Post ''Profiler.stopPreciseCoverage'' None) of
        Fulfilled _ \<Rightarrow> Fulfilled () | Rejected e \<Rightarrow> Rejected e | Pending \<Rightarrow> Pending,
      h @ [Post ''Profiler.stopPreciseCoverage'' None])"
  by (simp add: stopPreciseCoverage_def post_unit)

text \<open>
  Claim C7. \<^verbatim>\<open>connect\<close> issues, in this order, the opening of the connection, the
  request \<^verbatim>\<open>Profiler.enable\<close> and the request \<^verbatim>\<open>Profiler.startPreciseCoverage\<close> with
  exactly \<^verbatim>\<open>{ callCount: true, detailed: false }\<close>. Each step is issued only when the
  step before it has been fulfilled, so the start request never comes before the enable
  request has completed; a run in which a step is rejected or never settles stops there.
  Every run that completes has issued all three.
\<close>

theorem connect_order:
  "snd (connect c h) = h @
     (if \<not> is_fulfilled (c h SessionConnect) then [SessionConnect]
      else if \<not> is_fulfilled (c (h @ [SessionConnect]) (Post ''Profiler.enable'' None))
      then [SessionConnect, Post ''Profiler.enable'' None]
      else [SessionConnect, Post ''Profiler.enable'' None,
            Post ''Profiler.startPreciseCoverage'' (Some \<lparr>callCount = True, detailed = False\<rparr>)])
   \<and> (is_fulfilled (fst (connect c h)) \<longrightarrow>
        snd (connect c h) = h @
          [SessionConnect, Post ''Profiler.enable'' None,
           Post ''Profiler.startPreciseCoverage'' (Some \<lparr>callCount = True, detailed = False\<rparr>)])"
  by (simp add: connect_def await_def enable_eq startPreciseCoverage_eq issue_eq resolve_def
        is_fulfilled_def split: promise.splits)

theorem connect_order_witness:
  "is_fulfilled (fst (connect (always []) []))
   \<and> snd (connect (always []) []) =
       [SessionConnect, Post ''Profiler.enable'' None,
        Post ''Profiler.startPreciseCoverage'' (Some \<lparr>callCount = True, detailed = False\<rparr>)]"
proof -
  have f: "is_fulfilled (fst (connect (always []) []))" by code_simp
  have "snd (connect (always []) []) = [] @
       [SessionConnect, Post ''Profiler.enable'' None,
        Post ''Profiler.startPreciseCoverage'' (Some \<lparr>callCount = True, detailed = False\<rparr>)]"
    using connect_order[of "always []" "[]"] f by blast
  then show ?thesis using f by simp
qed

text \<open>
  Claim C8. \<^verbatim>\<open>disconnect\<close> issues, in this order, the request
  \<^verbatim>\<open>Profiler.stopPreciseCoverage\<close>, the request \<^verbatim>\<open>Profiler.disable\<close> and the closing of
  the connection, each only when the step before it has been fulfilled. Every run that
  completes has issued all three, and they are the inverses of the three steps of a
  completed \<^verbatim>\<open>connect\<close>, in reverse order.
\<close>

theorem disconnect_order:
  "snd (disconnect c h) = h @
     (if \<not> is_fulfilled (c h (Post ''Profiler.stopPreciseCoverage'' None))
      then [Post ''Profiler.stopPreciseCoverage'' None]
      else if \<not> is_fulfilled (c (h @ [Post ''Profiler.stopPreciseCoverage'' None])
                               (Post ''Profiler.disable'' None))
      then [Post ''Profiler.stopPreciseCoverage'' None, Post ''Profiler.disable'' None]
      else [Post ''Profiler.stopPreciseCoverage'' None, Post ''Profiler.disable'' None,
            SessionDisconnect])
   \<and> (is_fulfilled (fst (disconnect c h)) \<longrightarrow>
        snd (disconnect c h) = h @
          [Post ''Profiler.stopPreciseCoverage'' None, Post ''Profiler.disable'' None,
           SessionDisconnect]
        \<and> (is_fulfilled (fst (connect c' h')) \<longrightarrow>
             drop (length h) (snd (disconnect c h)) =
               rev (map inverse_request (drop (length h') (snd (connect c' h'))))))"
  by (simp add: disconnect_def connect_def await_def enable_eq startPreciseCoverage_eq
        disable_eq stopPreciseCoverage_eq issue_eq resolve_def
        is_fulfilled_def inverse_request_def split: promise.splits)

theorem disconnect_order_witness:
  "is_fulfilled (fst (disconnect (always []) []))
   \<and> is_fulfilled (fst (connect (always []) []))
   \<and> snd (disconnect (always []) []) =
       [Post ''Profiler.stopPreciseCoverage'' None, Post ''Profiler.disable'' None,
        SessionDisconnect]
   \<and> drop (length ([]::request list)) (snd (disconnect (always []) [])) =
       rev (map inverse_request (drop (length ([]::request list)) (snd (connect (always []) []))))"
proof -
  have f: "is_fulfilled (fst (disconnect (always []) []))" by code_simp
  have g: "is_fulfilled (fst (connect (always []) []))" by code_simp
  have "snd (disconnect (always []) []) = [] @
          [Post ''Profiler.stopPreciseCoverage'' None, Post ''Profiler.disable'' None,
           SessionDisconnect]
      \<and> drop (length ([]::request list)) (snd (disconnect (always []) [])) =
          rev (map inverse_request (drop (length ([]::request list)) (snd (connect (always []) []))))"
    using disconnect_order[of "always []" "[]" "always []" "[]"] f g by blast
  then show ?thesis using f g by auto
qed

text \<open>
  Claim C9. \<^verbatim>\<open>resetCoverage\<close> issues exactly one request,
  \<^verbatim>\<open>Profiler.takePreciseCoverage\<close>, and nothing else. What it resolves to is the unit
  value whatever snapshot the reply carries: the snapshot is discarded and the caller gets
  no value.
\<close>

theorem resetCoverage_single_request:
  "resetCoverage c h =
     (case c h (Post ''Profiler.takePreciseCoverage'' None) of
        Fulfilled snapshot \<Rightarrow> Fulfilled ()
      | Rejected e \<Rightarrow> Rejected e
      | Pending \<Rightarrow> Pending,
      h @ [Post ''Profiler.takePreciseCoverage'' None])"
  by (simp add: resetCoverage_def await_def takePreciseCoverage_eq resolve_def split: promise.splits)

text \<open>
  A run in which the session rejects a request stops at that request: \<^verbatim>\<open>connect\<close> does
  not start the coverage when enabling is rejected, and \<^verbatim>\<open>disconnect\<close> does not close
  the connection when stopping is rejected.
\<close>

lemma connect_stops_at_rejection:
  "connect (rejecting (Post ''Profiler.enable'' None)) [] =
     (Rejected (InspectorError ''rejected''), [SessionConnect, Post ''Profiler.enable'' None])"
  by code_simp

lemma disconnect_stops_at_rejection:
  "disconnect (rejecting (Post ''Profiler.stopPreciseCoverage'' None)) [] =
     (Rejected (InspectorError ''rejected''), [Post ''Profiler.stopPreciseCoverage'' None])"
  by code_simp

end
